theory Spec2Isabelle
  imports Complex_Main "HOL-Library.AList" "HOL-Library.Sublist" "HOL-Library.Word"
begin

unbundle bit_operations_syntax

section \<open>Session state (types.ts)\<close>

text \<open>
  The records follow the interfaces of \<^verbatim>\<open>types.ts\<close>. A patch arrives as parsed JSON, so
  a dimension object may carry any subset of the fields of \<^verbatim>\<open>DimensionState\<close>; an absent
  property is \<open>None\<close>. The same record serves for the stored dimension, because the
  object spread that merges a patch copies exactly the properties that are present.
  Numbers are never computed with in the store, only copied, and are modelled as reals;
  \<^verbatim>\<open>Date.now()\<close> values are integers (milliseconds).
\<close>

record DimensionState =
  score :: "real option"
  confidence :: "string option"
  evidenceCount :: "int option"
  trend :: "string option"
  contextNotes :: "string option"

record EvidenceItem =
  ev_timestamp :: string
  ev_dimension :: string
  ev_type :: string
  ev_summary :: string
  ev_scoreImpact :: "real option"

record ContradictionAlert =
  ca_dimension :: string
  earlyStatement :: string
  lateStatement :: string
  resolution :: string

record ScorePoint =
  time :: int
  DT :: real
  TR :: real
  CO :: real
  CA :: real
  EP :: real

text \<open>
  \<^verbatim>\<open>dimensions\<close> is a JavaScript object: an association list from property name to value,
  in insertion order (\<^verbatim>\<open>Object.keys\<close>, \<^verbatim>\<open>Object.values\<close> enumerate it).
\<close>

type_synonym dimension_object = "(string \<times> DimensionState) list"

record SessionState =
  dimensions :: dimension_object
  scoreHistory :: "ScorePoint list"
  evidenceLog :: "EvidenceItem list"
  contradictions :: "ContradictionAlert list"
  conversationPhase :: string
  strengths :: "string list"
  developmentPriorities :: "string list"
  summary :: "string option"
  fullReport :: "string option"

definition initial_dimension :: DimensionState where
  "initial_dimension =
     \<lparr>score = Some 3, confidence = Some ''LOW'', evidenceCount = Some 0,
      trend = Some ''stable'', contextNotes = None\<rparr>"

definition INITIAL_SESSION_STATE :: SessionState where
  "INITIAL_SESSION_STATE =
     \<lparr>dimensions =
        [(''DT'', initial_dimension), (''TR'', initial_dimension), (''CO'', initial_dimension),
         (''CA'', initial_dimension), (''EP'', initial_dimension)],
      scoreHistory = [\<lparr>time = 0, DT = 3, TR = 3, CO = 3, CA = 3, EP = 3\<rparr>],
      evidenceLog = [],
      contradictions = [],
      conversationPhase = ''OPENING'',
      strengths = [],
      developmentPriorities = [],
      summary = None,
      fullReport = None\<rparr>"

section \<open>The assessment-update handler (\<^verbatim>\<open>updateAssessmentState\<close>)\<close>

text \<open>
  The arguments of the tool call after \<^verbatim>\<open>JSON.parse\<close>, typed as the tool schema
  \<^verbatim>\<open>updateAssessmentTool\<close> declares them. \<open>None\<close> is an absent property.
\<close>

record AssessmentArgs =
  arg_dimensions :: "dimension_object option"
  arg_newEvidence :: "EvidenceItem option"
  arg_contradiction :: "ContradictionAlert option"
  arg_phase :: "string option"
  arg_isComplete :: "bool option"
  arg_summary :: "string option"
  arg_strengths :: "string list option"
  arg_developmentPriorities :: "string list option"

text \<open>\<^verbatim>\<open>{ ...a, ...b }\<close>: every property present in \<open>b\<close> wins, the others come from \<open>a\<close>.\<close>

definition or_else :: "'a option \<Rightarrow> 'a option \<Rightarrow> 'a option" where
  "or_else new old = (case new of Some v \<Rightarrow> Some v | None \<Rightarrow> old)"

definition spread :: "DimensionState \<Rightarrow> DimensionState \<Rightarrow> DimensionState" where
  "spread a b =
     \<lparr>score = or_else (score b) (score a),
      confidence = or_else (confidence b) (confidence a),
      evidenceCount = or_else (evidenceCount b) (evidenceCount a),
      trend = or_else (trend b) (trend a),
      contextNotes = or_else (contextNotes b) (contextNotes a)\<rparr>"

text \<open>Spreading \<^verbatim>\<open>undefined\<close> contributes no property.\<close>

definition no_properties :: DimensionState where
  "no_properties =
     \<lparr>score = None, confidence = None, evidenceCount = None, trend = None, contextNotes = None\<rparr>"

definition spread_undefined :: "DimensionState option \<Rightarrow> DimensionState" where
  "spread_undefined d = (case d of None \<Rightarrow> no_properties | Some x \<Rightarrow> x)"

text \<open>
  The \<^verbatim>\<open>forEach\<close> over \<^verbatim>\<open>Object.keys(args.dimensions)\<close>. A dimension object in the patch is
  truthy, so the guard \<^verbatim>\<open>if (args.dimensions[key])\<close> passes for every listed key. Assigning
  to an existing property keeps its position, assigning to a new one appends it.
\<close>

fun merge_dimensions :: "dimension_object \<Rightarrow> dimension_object \<Rightarrow> dimension_object" where
  "merge_dimensions [] newDimensions = newDimensions"
| "merge_dimensions ((key, d) # rest) newDimensions =
     merge_dimensions rest
       (AList.update key (spread (spread_undefined (map_of newDimensions key)) d) newDimensions)"

text \<open>\<^verbatim>\<open>newDimensions.DT?.score ?? 0\<close>\<close>

definition score_or_0 :: "dimension_object \<Rightarrow> string \<Rightarrow> real" where
  "score_or_0 ds key =
     (case map_of ds key of None \<Rightarrow> 0
      | Some d \<Rightarrow> (case score d of None \<Rightarrow> 0 | Some v \<Rightarrow> v))"

text \<open>
  \<^verbatim>\<open>a || b\<close> on a string property: the empty string is falsy, as is an absent property.
  On an array property: every array is truthy, the empty one too.
\<close>

definition or_string :: "string option \<Rightarrow> string \<Rightarrow> string" where
  "or_string a b = (case a of None \<Rightarrow> b | Some s \<Rightarrow> if s = [] then b else s)"

definition or_string_opt :: "string option \<Rightarrow> string option \<Rightarrow> string option" where
  "or_string_opt a b = (case a of None \<Rightarrow> b | Some s \<Rightarrow> if s = [] then b else Some s)"

definition or_array :: "'a list option \<Rightarrow> 'a list \<Rightarrow> 'a list" where
  "or_array a b = (case a of None \<Rightarrow> b | Some xs \<Rightarrow> xs)"

text \<open>
  The updater passed to \<^verbatim>\<open>setSessionState\<close>. \<open>now\<close> is \<^verbatim>\<open>Date.now()\<close> and \<open>sessionStart\<close>
  is \<^verbatim>\<open>sessionStartTimeRef.current\<close>, both in milliseconds.
\<close>

definition updateAssessmentState :: "int \<Rightarrow> int \<Rightarrow> AssessmentArgs \<Rightarrow> SessionState \<Rightarrow> SessionState" where
  "updateAssessmentState now sessionStart args prev =
     (let newLog = (case arg_newEvidence args of
                      None \<Rightarrow> evidenceLog prev
                    | Some e \<Rightarrow> evidenceLog prev @ [e]);
          newContradictions = (case arg_contradiction args of
                      None \<Rightarrow> contradictions prev
                    | Some c \<Rightarrow> contradictions prev @ [c]);
          newDimensions = (case arg_dimensions args of
                      None \<Rightarrow> dimensions prev
                    | Some ds \<Rightarrow> merge_dimensions ds (dimensions prev));
          elapsed = (now - sessionStart) div 1000;
          newPoint = \<lparr>time = elapsed,
                      DT = score_or_0 newDimensions ''DT'',
                      TR = score_or_0 newDimensions ''TR'',
                      CO = score_or_0 newDimensions ''CO'',
                      CA = score_or_0 newDimensions ''CA'',
                      EP = score_or_0 newDimensions ''EP''\<rparr>;
          newHistory = scoreHistory prev @ [newPoint]
      in prev\<lparr>dimensions := newDimensions,
              scoreHistory := newHistory,
              evidenceLog := newLog,
              contradictions := newContradictions,
              conversationPhase := or_string (arg_phase args) (conversationPhase prev),
              strengths := or_array (arg_strengths args) (strengths prev),
              developmentPriorities :=
                or_array (arg_developmentPriorities args) (developmentPriorities prev),
              summary := or_string_opt (arg_summary args) (summary prev)\<rparr>)"

text \<open>Patches applied in arrival order; each comes with the clock reading of its arrival.\<close>

fun apply_patches :: "int \<Rightarrow> (int \<times> AssessmentArgs) list \<Rightarrow> SessionState \<Rightarrow> SessionState" where
  "apply_patches sessionStart [] s = s"
| "apply_patches sessionStart ((now, args) # rest) s =
     apply_patches sessionStart rest (updateAssessmentState now sessionStart args s)"

text \<open>The patch of the scenario: \<^verbatim>\<open>{dimensions:{DT:{score:4.2}}, phase:"CORE"}\<close>.\<close>

definition scenario_patch :: AssessmentArgs where
  "scenario_patch =
     \<lparr>arg_dimensions = Some [(''DT'', no_properties\<lparr>score := Some 4.2\<rparr>)],
      arg_newEvidence = None, arg_contradiction = None, arg_phase = Some ''CORE'',
      arg_isComplete = None, arg_summary = None, arg_strengths = None,
      arg_developmentPriorities = None\<rparr>"

text \<open>A patch that carries a summary and nothing else.\<close>

definition patch_only_summary :: "string \<Rightarrow> AssessmentArgs" where
  "patch_only_summary s =
     \<lparr>arg_dimensions = None, arg_newEvidence = None, arg_contradiction = None, arg_phase = None,
      arg_isComplete = None, arg_summary = Some s, arg_strengths = None,
      arg_developmentPriorities = None\<rparr>"

subsection \<open>Reading the merged state\<close>

text \<open>\<^verbatim>\<open>ds[key]?.f\<close>: the field \<open>f\<close> of the dimension \<open>key\<close>, if both exist.\<close>

definition field_of :: "(DimensionState \<Rightarrow> 'a option) \<Rightarrow> dimension_object \<Rightarrow> string \<Rightarrow> 'a option" where
  "field_of f ds key = (case map_of ds key of None \<Rightarrow> None | Some d \<Rightarrow> f d)"

text \<open>The dimension objects a patch carries: none when \<^verbatim>\<open>dimensions\<close> is absent.\<close>

definition patch_dimensions :: "AssessmentArgs \<Rightarrow> dimension_object" where
  "patch_dimensions args = (case arg_dimensions args of None \<Rightarrow> [] | Some ds \<Rightarrow> ds)"

text \<open>
  The keys of \<^verbatim>\<open>DIMENSION_LABELS\<close>, and the property that each of these dimensions has a
  score.
\<close>

definition DIMENSION_CODES :: "string list" where
  "DIMENSION_CODES = [''DT'', ''TR'', ''CO'', ''CA'', ''EP'']"

definition has_scores :: "dimension_object \<Rightarrow> bool" where
  "has_scores ds = list_all (\<lambda>key. field_of score ds key \<noteq> None) DIMENSION_CODES"

section \<open>Sample conversion (utils/audioUtils.ts)\<close>

type_synonym byte = "8 word"
type_synonym int16 = "16 word"

datatype decode_error = RangeError | NotSupportedError

text \<open>
  \<^verbatim>\<open>dataView.getInt16(offset, true)\<close>: two bytes, little-endian, read as two's complement.
  A read that does not fit into the view raises \<^verbatim>\<open>RangeError\<close>.
\<close>

definition getInt16 :: "byte list \<Rightarrow> nat \<Rightarrow> decode_error + int" where
  "getInt16 dataView offset =
     (if offset + 2 \<le> length dataView
      then Inr (sint (word_cat (dataView ! (offset + 1)) (dataView ! offset) :: int16))
      else Inl RangeError)"

text \<open>A loop body run for each index in turn; the first exception ends the loop.\<close>

fun for_each :: "('i \<Rightarrow> decode_error + 'a) \<Rightarrow> 'i list \<Rightarrow> decode_error + 'a list" where
  "for_each body [] = Inr []"
| "for_each body (i # rest) =
     (case body i of
        Inl e \<Rightarrow> Inl e
      | Inr v \<Rightarrow> (case for_each body rest of Inl e \<Rightarrow> Inl e | Inr vs \<Rightarrow> Inr (v # vs)))"

text \<open>
  The buffer that \<^verbatim>\<open>ctx.createBuffer(numChannels, frameCount, sampleRate)\<close> hands out, filled
  by the loops of \<^verbatim>\<open>decodeAudioData\<close>. \<open>duration\<close> is the buffer's attribute of that name:
  its length in frames over its sample rate.
\<close>

record AudioBuffer =
  sampleRate :: nat
  bufferLength :: nat
  channelData :: "real list list"

definition duration :: "AudioBuffer \<Rightarrow> real" where
  "duration b = real (bufferLength b) / real (sampleRate b)"

text \<open>
  The allocation belongs to the audio context: \<^verbatim>\<open>createBuffer\<close> refuses a buffer with no
  channel or with no frame and throws \<^verbatim>\<open>NotSupportedError\<close>. (The sample rate the handler
  passes, 24000, is one every audio context supports.)
\<close>

definition createBuffer :: "nat \<Rightarrow> nat \<Rightarrow> nat \<Rightarrow> decode_error + AudioBuffer" where
  "createBuffer numChannels frameCount rate =
     (if numChannels = 0 \<or> frameCount = 0 then Inl NotSupportedError
      else Inr \<lparr>sampleRate = rate, bufferLength = frameCount,
                channelData = replicate numChannels (replicate frameCount 0)\<rparr>)"

text \<open>
  \<open>decodeAudioData\<close>: the frame count is the whole number of frames that fit, the
  buffer is allocated, and each channel is filled sample by sample.
\<close>

definition decodeAudioData :: "byte list \<Rightarrow> nat \<Rightarrow> nat \<Rightarrow> decode_error + AudioBuffer" where
  "decodeAudioData data rate numChannels =
     (let frameCount = length data div (numChannels * 2) in
      case createBuffer numChannels frameCount rate of
        Inl e \<Rightarrow> Inl e
      | Inr buffer \<Rightarrow>
          (case for_each
                  (\<lambda>channel.
                     for_each
                       (\<lambda>i. case getInt16 data ((i * numChannels + channel) * 2) of
                               Inl e \<Rightarrow> Inl e
                             | Inr v \<Rightarrow> Inr (real_of_int v / 32768))
                       [0..<frameCount])
                  [0..<numChannels] of
             Inl e \<Rightarrow> Inl e
           | Inr cs \<Rightarrow> Inr (buffer\<lparr>channelData := cs\<rparr>)))"

text \<open>
  Storing a number into an \<^verbatim>\<open>Int16Array\<close>: the fraction is cut off towards zero and the
  integer wraps modulo \<open>2 ^ 16\<close>.
\<close>

definition to_int16 :: "real \<Rightarrow> int16" where
  "to_int16 x = word_of_int (if x < 0 then - \<lfloor>- x\<rfloor> else \<lfloor>x\<rfloor>)"

definition float32ToInt16 :: "real list \<Rightarrow> int16 list" where
  "float32ToInt16 float32Data =
     map (\<lambda>x. let s = max (- 1) (min 1 x)
              in to_int16 (if s < 0 then s * 32768 else s * 32767))
       float32Data"

text \<open>
  \<^verbatim>\<open>new Uint8Array(int16Data.buffer)\<close>: the bytes of the samples, low byte first (the
  byte order of the platforms a browser runs on).
\<close>

definition uint8_view :: "int16 list \<Rightarrow> byte list" where
  "uint8_view int16Data = concat (map (\<lambda>w. [ucast w, ucast (drop_bit 8 w)]) int16Data)"

section \<open>Playback scheduling (\<^verbatim>\<open>ws.onmessage\<close>)\<close>

text \<open>
  The refs the message handler shares: \<^verbatim>\<open>nextStartTimeRef\<close>, \<^verbatim>\<open>sourcesRef\<close>,
  \<^verbatim>\<open>isAiSpeakingRef\<close>, \<^verbatim>\<open>lastAiSpeechEndTimeRef\<close>. A source node is named by the number of
  nodes created before it. \<open>started\<close> logs the calls \<^verbatim>\<open>source.start(t)\<close> as pairs of node
  and start time, \<open>timers\<close> counts the pending 200 ms timeouts.
\<close>

record Playback =
  nextStartTime :: real
  sources :: "nat set"
  isAiSpeaking :: bool
  lastAiSpeechEndTime :: int
  started :: "(nat \<times> real) list"
  timers :: nat
  created :: nat

definition initial_playback :: Playback where
  "initial_playback =
     \<lparr>nextStartTime = 0, sources = {}, isAiSpeaking = False, lastAiSpeechEndTime = 0,
      started = [], timers = 0, created = 0\<rparr>"

text \<open>
  \<^verbatim>\<open>response.audio.delta\<close> with the bytes of its payload and the reading of
  \<^verbatim>\<open>outputCtx.currentTime\<close>. An exception of the decoding (a payload with no complete
  sample, for which no buffer is allocated) is caught and logged, and nothing is
  scheduled. (A delta without payload is skipped by the guard \<^verbatim>\<open>if (base64Audio)\<close> and
  changes nothing; it is no event here.)
\<close>

definition on_audio_delta :: "real \<Rightarrow> byte list \<Rightarrow> Playback \<Rightarrow> Playback" where
  "on_audio_delta currentTime rawBytes st =
     (case decodeAudioData rawBytes 24000 1 of
        Inl e \<Rightarrow> st
      | Inr audioBuffer \<Rightarrow>
          (let t = (if nextStartTime st < currentTime then currentTime else nextStartTime st);
               source = created st
           in st\<lparr>nextStartTime := t + duration audioBuffer,
                 sources := insert source (sources st),
                 isAiSpeaking := True,
                 started := started st @ [(source, t)],
                 created := Suc (created st)\<rparr>))"

text \<open>\<^verbatim>\<open>source.onended\<close>: the node leaves the set; an empty set arms the 200 ms timeout.\<close>

definition on_ended :: "nat \<Rightarrow> Playback \<Rightarrow> Playback" where
  "on_ended source st =
     (let remaining = sources st - {source}
      in if remaining = {}
         then st\<lparr>sources := remaining, timers := Suc (timers st)\<rparr>
         else st\<lparr>sources := remaining\<rparr>)"

text \<open>The timeout's callback; \<open>now\<close> is \<^verbatim>\<open>Date.now()\<close>. It runs only if a timeout is pending.\<close>

definition on_timeout :: "int \<Rightarrow> Playback \<Rightarrow> Playback" where
  "on_timeout now st =
     (if timers st = 0 then st
      else st\<lparr>isAiSpeaking := False, lastAiSpeechEndTime := now, timers := timers st - 1\<rparr>)"

text \<open>
  \<^verbatim>\<open>input_audio_buffer.speech_started\<close>, the barge-in: every source is stopped (an
  exception of \<^verbatim>\<open>stop\<close> is swallowed), the set cleared and the refs reset.
\<close>

definition on_speech_started :: "Playback \<Rightarrow> Playback" where
  "on_speech_started st =
     st\<lparr>sources := {}, isAiSpeaking := False, nextStartTime := 0, lastAiSpeechEndTime := 0\<rparr>"

datatype playback_event =
    AudioDelta real "byte list"
  | Ended nat
  | Timeout int
  | SpeechStarted

fun playback_step :: "Playback \<Rightarrow> playback_event \<Rightarrow> Playback" where
  "playback_step st (AudioDelta currentTime rawBytes) = on_audio_delta currentTime rawBytes st"
| "playback_step st (Ended source) = on_ended source st"
| "playback_step st (Timeout now) = on_timeout now st"
| "playback_step st SpeechStarted = on_speech_started st"

definition playback_run :: "Playback \<Rightarrow> playback_event list \<Rightarrow> Playback" where
  "playback_run st events = foldl playback_step st events"

text \<open>Frames enqueued one after the other, with no other event in between.\<close>

fun enqueue_all :: "(real \<times> byte list) list \<Rightarrow> Playback \<Rightarrow> Playback" where
  "enqueue_all [] st = st"
| "enqueue_all ((currentTime, rawBytes) # rest) st =
     enqueue_all rest (on_audio_delta currentTime rawBytes st)"

text \<open>
  No frame arrives after the audio scheduled so far has run out: at each arrival the
  output clock has not passed \<open>nextStartTime\<close>.
\<close>

fun no_underrun :: "(real \<times> byte list) list \<Rightarrow> Playback \<Rightarrow> bool" where
  "no_underrun [] st = True"
| "no_underrun ((currentTime, rawBytes) # rest) st =
     (currentTime \<le> nextStartTime st \<and> no_underrun rest (on_audio_delta currentTime rawBytes st))"

text \<open>
  The frames that decode, those with at least one complete sample, and the duration of
  the buffer such a frame decodes to, at 24 kHz.
\<close>

definition playable :: "(real \<times> byte list) list \<Rightarrow> (real \<times> byte list) list" where
  "playable fs = filter (\<lambda>f. 2 \<le> length (snd f)) fs"

definition frame_duration :: "byte list \<Rightarrow> real" where
  "frame_duration rawBytes = real (length rawBytes div 2) / 24000"

section \<open>Session monitor (the timing effect of \<^verbatim>\<open>LiveVoiceCoach\<close>)\<close>

datatype ConnectionState = DISCONNECTED | CONNECTING | CONNECTED | ERROR | COMPLETE

record Coach =
  connectionState :: ConnectionState
  isPaused :: bool
  errorMsg :: "string option"
  showEmailModal :: bool
  showEarlyExitButton :: bool
  sessionState :: SessionState

text \<open>\<^verbatim>\<open>handleDisconnectBtn\<close>: pause unless paused, then open the e-mail dialogue.\<close>

definition handleDisconnectBtn :: "Coach \<Rightarrow> Coach" where
  "handleDisconnectBtn c =
     (if \<not> isPaused c then c\<lparr>isPaused := True, showEmailModal := True\<rparr>
      else c\<lparr>showEmailModal := True\<rparr>)"

text \<open>
  One run of the interval callback. The interval exists only while the connection is
  \<^verbatim>\<open>CONNECTED\<close> and the session is not paused.
\<close>

definition monitor_tick :: "int \<Rightarrow> int \<Rightarrow> Coach \<Rightarrow> Coach" where
  "monitor_tick now sessionStart c =
     (if connectionState c = CONNECTED \<and> \<not> isPaused c then
        (let elapsedMs = now - sessionStart;
             elapsedMinutes = real_of_int elapsedMs / 60000
         in if elapsedMinutes \<ge> 20 then
              (handleDisconnectBtn c)
                \<lparr>errorMsg :=
                   Some ''Maximum session time reached (20 mins). Please finalize your report.''\<rparr>
            else if elapsedMinutes \<ge> 5 then
              (let dims = dimensions (sessionState c);
                   hasAllDims = (length dims \<ge> 5);
                   allHigh = (hasAllDims \<and> list_all (\<lambda>(key, d). confidence d = Some ''high'') dims)
               in if allHigh then c\<lparr>showEarlyExitButton := True\<rparr> else c)
            else c)
      else c)"

text \<open>A patch that sets the confidence of each of the five dimensions.\<close>

definition confidence_patch :: "string \<Rightarrow> AssessmentArgs" where
  "confidence_patch v =
     \<lparr>arg_dimensions =
        Some (map (\<lambda>key. (key, no_properties\<lparr>confidence := Some v\<rparr>)) DIMENSION_CODES),
      arg_newEvidence = None, arg_contradiction = None, arg_phase = Some ''VALIDATION'',
      arg_isComplete = None, arg_summary = None, arg_strengths = None,
      arg_developmentPriorities = None\<rparr>"

definition connected_coach :: "SessionState \<Rightarrow> Coach" where
  "connected_coach s =
     \<lparr>connectionState = CONNECTED, isPaused = False, errorMsg = None, showEmailModal = False,
      showEarlyExitButton = False, sessionState = s\<rparr>"

section \<open>Auxiliary notions for the statements\<close>

text \<open>The \<open>i\<close>-th 16-bit sample of a byte buffer, as \<open>getInt16\<close> reads it when in range.\<close>

definition sample_at :: "byte list \<Rightarrow> nat \<Rightarrow> int" where
  "sample_at dv i = sint (word_cat (dv ! (2 * i + 1)) (dv ! (2 * i)) :: int16)"

text \<open>The start times that \<open>source.start\<close> was called with, in call order.\<close>

definition scheduled_starts :: "Playback \<Rightarrow> real list" where
  "scheduled_starts st = map snd (started st)"

text \<open>Back-to-back start times: each buffer begins where the one before it ends.\<close>

fun starts_from :: "real \<Rightarrow> real list \<Rightarrow> real list" where
  "starts_from t [] = []"
| "starts_from t (d # ds) = t # starts_from (t + d) ds"

text \<open>The start times the handler computes from a cursor value and the arrivals.\<close>

fun actual_starts :: "real \<Rightarrow> (real \<times> byte list) list \<Rightarrow> real list" where
  "actual_starts nst [] = []"
| "actual_starts nst ((currentTime, rawBytes) # rest) =
     max nst currentTime # actual_starts (max nst currentTime + frame_duration rawBytes) rest"

text \<open>
  What holds of the playback refs after any run of events: a flag that is still set over
  an empty set has its timeout pending, and every member of the set is a node created
  earlier.
\<close>

definition playback_inv :: "Playback \<Rightarrow> bool" where
  "playback_inv st \<longleftrightarrow>
     (sources st = {} \<and> isAiSpeaking st \<longrightarrow> 0 < timers st) \<and> (\<forall>x \<in> sources st. x < created st)"

section \<open>Properties of the session store\<close>

lemma map_of_merge_absent:
  "key \<notin> fst ` set pd \<Longrightarrow> map_of (merge_dimensions pd nd) key = map_of nd key"
  by (induction pd nd rule: merge_dimensions.induct) (auto simp: update_conv')

lemma map_of_merge_present:
  "distinct (map fst pd) \<Longrightarrow> (key, p) \<in> set pd \<Longrightarrow>
   map_of (merge_dimensions pd nd) key = Some (spread (spread_undefined (map_of nd key)) p)"
proof (induction pd nd rule: merge_dimensions.induct)
  case (1 nd)
  then show ?case by simp
next
  case (2 k d rest nd)
  show ?case
  proof (cases "key = k")
    case True
    with 2 have "p = d" by (auto simp: image_iff)
    moreover from True 2 have "key \<notin> fst ` set rest" by auto
    ultimately show ?thesis using True
      by (simp add: map_of_merge_absent update_conv')
  next
    case False
    with 2 show ?thesis by (auto simp: update_conv')
  qed
qed

lemma field_of_merge:
  assumes "distinct (map fst pd)"
      and "\<And>a b. f (spread a b) = or_else (f b) (f a)"
      and "f no_properties = None"
  shows "field_of f (merge_dimensions pd nd) key = or_else (field_of f pd key) (field_of f nd key)"
proof (cases "map_of pd key")
  case None
  then have "key \<notin> fst ` set pd" by (simp add: map_of_eq_None_iff)
  with None show ?thesis by (simp add: field_of_def map_of_merge_absent or_else_def)
next
  case (Some p)
  then have "(key, p) \<in> set pd" by (rule map_of_SomeD)
  with assms(1)
  have "map_of (merge_dimensions pd nd) key = Some (spread (spread_undefined (map_of nd key)) p)"
    by (rule map_of_merge_present)
  with Some assms(2,3) show ?thesis
    by (simp add: field_of_def spread_undefined_def or_else_def split: option.splits)
qed

lemma keys_merge_prefix: "prefix (map fst nd) (map fst (merge_dimensions pd nd))"
proof (induction pd nd rule: merge_dimensions.induct)
  case (1 nd)
  show ?case by simp
next
  case (2 k d rest nd)
  have "prefix (map fst nd) (map fst (AList.update k (spread (spread_undefined (map_of nd k)) d) nd))"
    by (cases "k \<in> fst ` set nd") (simp_all add: update_keys)
  with 2 show ?case by (auto intro: prefix_order.trans)
qed

lemma spread_fields:
  "score (spread a b) = or_else (score b) (score a)"
  "confidence (spread a b) = or_else (confidence b) (confidence a)"
  "evidenceCount (spread a b) = or_else (evidenceCount b) (evidenceCount a)"
  "trend (spread a b) = or_else (trend b) (trend a)"
  "contextNotes (spread a b) = or_else (contextNotes b) (contextNotes a)"
  by (simp_all add: spread_def)

lemma no_properties_fields:
  "score no_properties = None" "confidence no_properties = None"
  "evidenceCount no_properties = None" "trend no_properties = None"
  "contextNotes no_properties = None"
  by (simp_all add: no_properties_def)

lemma updateAssessmentState_dimensions:
  "dimensions (updateAssessmentState now start args prev) =
     merge_dimensions (patch_dimensions args) (dimensions prev)"
  by (simp add: updateAssessmentState_def patch_dimensions_def Let_def split: option.splits)

lemma scenario_result:
  "updateAssessmentState now start scenario_patch INITIAL_SESSION_STATE =
     INITIAL_SESSION_STATE
       \<lparr>dimensions :=
          [(''DT'', initial_dimension\<lparr>score := Some 4.2\<rparr>), (''TR'', initial_dimension),
           (''CO'', initial_dimension), (''CA'', initial_dimension), (''EP'', initial_dimension)],
        scoreHistory :=
          scoreHistory INITIAL_SESSION_STATE @
            [\<lparr>time = (now - start) div 1000, DT = 4.2, TR = 3, CO = 3, CA = 3, EP = 3\<rparr>],
        conversationPhase := ''CORE''\<rparr>"
  by (simp add: updateAssessmentState_def scenario_patch_def INITIAL_SESSION_STATE_def Let_def
     or_string_def or_array_def or_string_opt_def spread_def spread_undefined_def no_properties_def
     initial_dimension_def or_else_def score_or_0_def)

text \<open>
  Claim C1. The handler merges dimensions field by field. For a patch whose dimension
  object has each key once (as every parsed JSON object has), each field of each
  dimension is afterwards the patch's value if the patch carries that field for that
  dimension, and the stored value otherwise; a dimension the patch does not list is the
  same object as before, and no dimension is removed or moved. Applied to the initial
  state, the patch \<^verbatim>\<open>{dimensions:{DT:{score:4.2}}, phase:"CORE"}\<close> changes the score of DT and
  the phase, appends one point to the history, and leaves everything else as it was.
\<close>

theorem C1_field_level_merge:
  "(distinct (map fst (patch_dimensions args)) \<longrightarrow>
      (let pd = patch_dimensions args; old = dimensions prev;
           new = dimensions (updateAssessmentState now start args prev) in
       field_of score new key = or_else (field_of score pd key) (field_of score old key) \<and>
       field_of confidence new key =
         or_else (field_of confidence pd key) (field_of confidence old key) \<and>
       field_of evidenceCount new key =
         or_else (field_of evidenceCount pd key) (field_of evidenceCount old key) \<and>
       field_of trend new key = or_else (field_of trend pd key) (field_of trend old key) \<and>
       field_of contextNotes new key =
         or_else (field_of contextNotes pd key) (field_of contextNotes old key) \<and>
       (key \<notin> fst ` set pd \<longrightarrow> map_of new key = map_of old key) \<and>
       prefix (map fst old) (map fst new)))
   \<and> updateAssessmentState now start scenario_patch INITIAL_SESSION_STATE =
       INITIAL_SESSION_STATE
         \<lparr>dimensions :=
            [(''DT'', initial_dimension\<lparr>score := Some 4.2\<rparr>), (''TR'', initial_dimension),
             (''CO'', initial_dimension), (''CA'', initial_dimension), (''EP'', initial_dimension)],
          scoreHistory :=
            scoreHistory INITIAL_SESSION_STATE @
              [\<lparr>time = (now - start) div 1000, DT = 4.2, TR = 3, CO = 3, CA = 3, EP = 3\<rparr>],
          conversationPhase := ''CORE''\<rparr>"
proof (intro conjI impI)
  assume d: "distinct (map fst (patch_dimensions args))"
  show "let pd = patch_dimensions args; old = dimensions prev;
           new = dimensions (updateAssessmentState now start args prev) in
       field_of score new key = or_else (field_of score pd key) (field_of score old key) \<and>
       field_of confidence new key =
         or_else (field_of confidence pd key) (field_of confidence old key) \<and>
       field_of evidenceCount new key =
         or_else (field_of evidenceCount pd key) (field_of evidenceCount old key) \<and>
       field_of trend new key = or_else (field_of trend pd key) (field_of trend old key) \<and>
       field_of contextNotes new key =
         or_else (field_of contextNotes pd key) (field_of contextNotes old key) \<and>
       (key \<notin> fst ` set pd \<longrightarrow> map_of new key = map_of old key) \<and>
       prefix (map fst old) (map fst new)"
    unfolding Let_def updateAssessmentState_dimensions
    using d
    by (simp add: field_of_merge spread_fields no_properties_fields map_of_merge_absent
        keys_merge_prefix)
next
  show "updateAssessmentState now start scenario_patch INITIAL_SESSION_STATE =
       INITIAL_SESSION_STATE
         \<lparr>dimensions :=
            [(''DT'', initial_dimension\<lparr>score := Some 4.2\<rparr>), (''TR'', initial_dimension),
             (''CO'', initial_dimension), (''CA'', initial_dimension), (''EP'', initial_dimension)],
          scoreHistory :=
            scoreHistory INITIAL_SESSION_STATE @
              [\<lparr>time = (now - start) div 1000, DT = 4.2, TR = 3, CO = 3, CA = 3, EP = 3\<rparr>],
          conversationPhase := ''CORE''\<rparr>"
    by (rule scenario_result)
qed

text \<open>
  The scenario patch on the initial state: DT takes the new score and keeps its
  confidence, TR is the object it was.
\<close>

theorem C1_field_level_merge_witness:
  "distinct (map fst (patch_dimensions scenario_patch)) \<and>
   ''TR'' \<notin> fst ` set (patch_dimensions scenario_patch) \<and>
   field_of score
     (dimensions (updateAssessmentState 0 0 scenario_patch INITIAL_SESSION_STATE)) ''DT'' = Some 4.2 \<and>
   field_of confidence
     (dimensions (updateAssessmentState 0 0 scenario_patch INITIAL_SESSION_STATE)) ''DT''
       = Some ''LOW'' \<and>
   map_of (dimensions (updateAssessmentState 0 0 scenario_patch INITIAL_SESSION_STATE)) ''TR''
     = Some initial_dimension"
proof -
  have d: "distinct (map fst (patch_dimensions scenario_patch))"
    and a: "''TR'' \<notin> fst ` set (patch_dimensions scenario_patch)"
    by (simp_all add: patch_dimensions_def scenario_patch_def)
  note dt = C1_field_level_merge [of scenario_patch INITIAL_SESSION_STATE 0 0 "''DT''",
      THEN conjunct1, rule_format, OF d, unfolded Let_def]
  note tr = C1_field_level_merge [of scenario_patch INITIAL_SESSION_STATE 0 0 "''TR''",
      THEN conjunct1, rule_format, OF d, unfolded Let_def]
  from dt have "field_of score
     (dimensions (updateAssessmentState 0 0 scenario_patch INITIAL_SESSION_STATE)) ''DT'' = Some 4.2"
    by (simp add: patch_dimensions_def scenario_patch_def field_of_def or_else_def
        no_properties_def)
  moreover from dt have "field_of confidence
     (dimensions (updateAssessmentState 0 0 scenario_patch INITIAL_SESSION_STATE)) ''DT''
       = Some ''LOW''"
    by (simp add: patch_dimensions_def scenario_patch_def field_of_def or_else_def
        no_properties_def INITIAL_SESSION_STATE_def initial_dimension_def)
  moreover from tr a
  have "map_of (dimensions (updateAssessmentState 0 0 scenario_patch INITIAL_SESSION_STATE)) ''TR''
     = Some initial_dimension"
    by (simp add: INITIAL_SESSION_STATE_def)
  ultimately show ?thesis using d a by blast
qed

subsection \<open>The score history\<close>

lemma field_of_score_merge_keeps:
  "field_of score nd key \<noteq> None \<Longrightarrow> field_of score (merge_dimensions pd nd) key \<noteq> None"
proof (induction pd nd rule: merge_dimensions.induct)
  case (1 nd)
  then show ?case by simp
next
  case (2 k d rest nd)
  have "field_of score (AList.update k (spread (spread_undefined (map_of nd k)) d) nd) key \<noteq> None"
    using "2.prems"
    by (auto simp: field_of_def update_conv' spread_def or_else_def spread_undefined_def
        split: option.splits)
  then show ?case using "2.IH" by simp
qed

lemma has_scores_merge: "has_scores nd \<Longrightarrow> has_scores (merge_dimensions pd nd)"
  unfolding has_scores_def list_all_iff using field_of_score_merge_keeps by blast

lemma has_scores_update:
  "has_scores (dimensions prev) \<Longrightarrow>
   has_scores (dimensions (updateAssessmentState now start args prev))"
  by (simp add: updateAssessmentState_dimensions has_scores_merge)

lemma has_scores_initial: "has_scores (dimensions INITIAL_SESSION_STATE)"
  by (simp add: has_scores_def DIMENSION_CODES_def INITIAL_SESSION_STATE_def field_of_def
      initial_dimension_def)

lemma has_scores_apply_patches:
  "has_scores (dimensions s) \<Longrightarrow> has_scores (dimensions (apply_patches start ps s))"
  by (induction start ps s rule: apply_patches.induct) (simp_all add: has_scores_update)

lemma score_or_0_defined:
  "has_scores ds \<Longrightarrow> key \<in> set DIMENSION_CODES \<Longrightarrow>
   field_of score ds key = Some (score_or_0 ds key)"
  by (auto simp: has_scores_def list_all_iff score_or_0_def field_of_def split: option.splits)

lemma updateAssessmentState_scoreHistory:
  "scoreHistory (updateAssessmentState now start args prev) =
     scoreHistory prev @
       [\<lparr>time = (now - start) div 1000,
         DT = score_or_0 (dimensions (updateAssessmentState now start args prev)) ''DT'',
         TR = score_or_0 (dimensions (updateAssessmentState now start args prev)) ''TR'',
         CO = score_or_0 (dimensions (updateAssessmentState now start args prev)) ''CO'',
         CA = score_or_0 (dimensions (updateAssessmentState now start args prev)) ''CA'',
         EP = score_or_0 (dimensions (updateAssessmentState now start args prev)) ''EP''\<rparr>]"
  by (simp add: updateAssessmentState_def Let_def)

lemma length_scoreHistory_apply_patches:
  "length (scoreHistory (apply_patches start ps s)) = length (scoreHistory s) + length ps"
  by (induction start ps s rule: apply_patches.induct)
     (simp_all add: updateAssessmentState_scoreHistory)

text \<open>
  Claim C4. In a session that began in the initial state and has seen any patches so
  far, applying one more patch appends exactly one point to the score history: its time
  is the whole number of seconds elapsed since the session start, and its five values
  are the scores of the five dimensions after the merge, whatever the patch changed.
  Hence a run of patches lengthens the history by the number of patches.
\<close>

theorem C4_one_score_point_per_patch:
  "(let prev = apply_patches start ps INITIAL_SESSION_STATE;
        new = updateAssessmentState now start args prev;
        point = last (scoreHistory new)
    in scoreHistory new = scoreHistory prev @ [point] \<and>
       time point = (now - start) div 1000 \<and>
       field_of score (dimensions new) ''DT'' = Some (DT point) \<and>
       field_of score (dimensions new) ''TR'' = Some (TR point) \<and>
       field_of score (dimensions new) ''CO'' = Some (CO point) \<and>
       field_of score (dimensions new) ''CA'' = Some (CA point) \<and>
       field_of score (dimensions new) ''EP'' = Some (EP point))
   \<and> length (scoreHistory (apply_patches start ps s)) = length (scoreHistory s) + length ps"
proof -
  define prev where "prev = apply_patches start ps INITIAL_SESSION_STATE"
  define new where "new = updateAssessmentState now start args prev"
  have hs: "has_scores (dimensions new)"
    unfolding new_def prev_def
    by (intro has_scores_update has_scores_apply_patches has_scores_initial)
  have h: "scoreHistory new = scoreHistory prev @
       [\<lparr>time = (now - start) div 1000,
         DT = score_or_0 (dimensions new) ''DT'', TR = score_or_0 (dimensions new) ''TR'',
         CO = score_or_0 (dimensions new) ''CO'', CA = score_or_0 (dimensions new) ''CA'',
         EP = score_or_0 (dimensions new) ''EP''\<rparr>]"
    unfolding new_def by (rule updateAssessmentState_scoreHistory)
  have s: "field_of score (dimensions new) key = Some (score_or_0 (dimensions new) key)"
    if "key \<in> set DIMENSION_CODES" for key
    using hs that by (rule score_or_0_defined)
  have l: "last (scoreHistory new) =
       \<lparr>time = (now - start) div 1000,
         DT = score_or_0 (dimensions new) ''DT'', TR = score_or_0 (dimensions new) ''TR'',
         CO = score_or_0 (dimensions new) ''CO'', CA = score_or_0 (dimensions new) ''CA'',
         EP = score_or_0 (dimensions new) ''EP''\<rparr>"
    by (subst h) simp
  have "scoreHistory new = scoreHistory prev @ [last (scoreHistory new)] \<and>
       time (last (scoreHistory new)) = (now - start) div 1000 \<and>
       field_of score (dimensions new) ''DT'' = Some (DT (last (scoreHistory new))) \<and>
       field_of score (dimensions new) ''TR'' = Some (TR (last (scoreHistory new))) \<and>
       field_of score (dimensions new) ''CO'' = Some (CO (last (scoreHistory new))) \<and>
       field_of score (dimensions new) ''CA'' = Some (CA (last (scoreHistory new))) \<and>
       field_of score (dimensions new) ''EP'' = Some (EP (last (scoreHistory new)))"
    unfolding l using h by (simp add: s DIMENSION_CODES_def)
  then show ?thesis
    unfolding Let_def new_def prev_def
    by (simp add: length_scoreHistory_apply_patches)
qed

subsection \<open>The logs\<close>

lemma updateAssessmentState_logs:
  "evidenceLog (updateAssessmentState now start args prev) =
     (case arg_newEvidence args of None \<Rightarrow> evidenceLog prev | Some e \<Rightarrow> evidenceLog prev @ [e])"
  "contradictions (updateAssessmentState now start args prev) =
     (case arg_contradiction args of None \<Rightarrow> contradictions prev
      | Some c \<Rightarrow> contradictions prev @ [c])"
  by (simp_all add: updateAssessmentState_def Let_def)

lemma evidenceLog_apply_patches:
  "evidenceLog (apply_patches start ps s) =
     evidenceLog s @ List.map_filter (\<lambda>(now, args). arg_newEvidence args) ps"
  by (induction start ps s rule: apply_patches.induct)
     (simp_all add: updateAssessmentState_logs map_filter_simps split: option.splits)

lemma contradictions_apply_patches:
  "contradictions (apply_patches start ps s) =
     contradictions s @ List.map_filter (\<lambda>(now, args). arg_contradiction args) ps"
  by (induction start ps s rule: apply_patches.induct)
     (simp_all add: updateAssessmentState_logs map_filter_simps split: option.splits)

text \<open>
  Claim C5. Over any run of patches the evidence log and the contradiction log only grow
  at the end: the log before the run is a prefix of the log after it, and what is added
  is, in arrival order, the \<^verbatim>\<open>newEvidence\<close> (the \<^verbatim>\<open>contradiction\<close>) of each patch that carries
  one. A single patch appends exactly its one item, or nothing if it carries none.
\<close>

theorem C5_append_only_logs:
  "prefix (evidenceLog s) (evidenceLog (apply_patches start ps s)) \<and>
   prefix (contradictions s) (contradictions (apply_patches start ps s)) \<and>
   evidenceLog (apply_patches start ps s) =
     evidenceLog s @ List.map_filter (\<lambda>(now, args). arg_newEvidence args) ps \<and>
   contradictions (apply_patches start ps s) =
     contradictions s @ List.map_filter (\<lambda>(now, args). arg_contradiction args) ps \<and>
   evidenceLog (updateAssessmentState now start args s) =
     (case arg_newEvidence args of None \<Rightarrow> evidenceLog s | Some e \<Rightarrow> evidenceLog s @ [e]) \<and>
   contradictions (updateAssessmentState now start args s) =
     (case arg_contradiction args of None \<Rightarrow> contradictions s | Some c \<Rightarrow> contradictions s @ [c])"
  by (simp add: evidenceLog_apply_patches contradictions_apply_patches updateAssessmentState_logs)

subsection \<open>Phase, strengths, priorities and summary\<close>

text \<open>
  Claim C10, as the handler has it. Each of the four properties is merged with
  \<^verbatim>\<open>||\<close>: the patch's value replaces the stored one exactly when it is present and truthy.
  For the two strings that means present and not empty; for the two arrays it means
  present, an empty array included. An absent property, or an empty string, keeps the
  stored value.
\<close>

theorem C10_overwrite_when_truthy:
  "(let new = updateAssessmentState now start args prev in
    conversationPhase new =
      (case arg_phase args of None \<Rightarrow> conversationPhase prev
       | Some v \<Rightarrow> if v = [] then conversationPhase prev else v) \<and>
    strengths new = (case arg_strengths args of None \<Rightarrow> strengths prev | Some xs \<Rightarrow> xs) \<and>
    developmentPriorities new =
      (case arg_developmentPriorities args of None \<Rightarrow> developmentPriorities prev | Some xs \<Rightarrow> xs) \<and>
    summary new =
      (case arg_summary args of None \<Rightarrow> summary prev
       | Some v \<Rightarrow> if v = [] then summary prev else Some v))"
  by (simp add: updateAssessmentState_def Let_def or_string_def or_array_def or_string_opt_def)

text \<open>
  A patch whose summary is present and empty does not replace a stored summary.
\<close>

theorem C10_empty_summary_counterexample:
  "arg_summary (patch_only_summary []) = Some [] \<and>
   summary (updateAssessmentState 0 0 (patch_only_summary [])
      (INITIAL_SESSION_STATE\<lparr>summary := Some ''first''\<rparr>)) = Some ''first''"
  by (simp add: patch_only_summary_def updateAssessmentState_def Let_def or_string_opt_def)

section \<open>Properties of the sample conversion\<close>

lemma for_each_total:
  "(\<And>i. i \<in> set is \<Longrightarrow> body i = Inr (f i)) \<Longrightarrow> for_each body is = Inr (map f is)"
  by (induction "is") simp_all

lemma getInt16_in_range:
  "offset + 2 \<le> length dv \<Longrightarrow>
   getInt16 dv offset = Inr (sint (word_cat (dv ! (offset + 1)) (dv ! offset) :: int16))"
  by (simp add: getInt16_def)


text \<open>
  With one channel no read is out of range, whatever the length of the data; the only
  failure is the allocation for data without a complete sample.
\<close>

lemma decodeAudioData_short:
  "length data < 2 \<Longrightarrow> decodeAudioData data rate 1 = Inl NotSupportedError"
  by (simp add: decodeAudioData_def createBuffer_def Let_def)

lemma decodeAudioData_mono:
  "2 \<le> length data \<Longrightarrow>
   decodeAudioData data rate 1 =
     Inr \<lparr>sampleRate = rate, bufferLength = length data div 2,
          channelData = [map (\<lambda>i. real_of_int (sample_at data i) / 32768) [0..<length data div 2]]\<rparr>"
proof -
  have inner: "for_each
          (\<lambda>i. case getInt16 data ((i * 1 + 0) * 2) of Inl e \<Rightarrow> Inl e
                | Inr v \<Rightarrow> Inr (real_of_int v / 32768))
          [0..<length data div 2]
        = Inr (map (\<lambda>i. real_of_int (sample_at data i) / 32768) [0..<length data div 2])"
  proof (rule for_each_total)
    fix i assume "i \<in> set [0..<length data div 2]"
    then have "(i * 1 + 0) * 2 + 2 \<le> length data" by auto
    then show "(case getInt16 data ((i * 1 + 0) * 2) of Inl e \<Rightarrow> Inl e
                | Inr v \<Rightarrow> Inr (real_of_int v / 32768))
        = Inr (real_of_int (sample_at data i) / 32768)"
      by (simp add: getInt16_in_range sample_at_def mult.commute)
  qed
  assume "2 \<le> length data"
  then have "length data div 2 \<noteq> 0" by auto
  then show ?thesis
    unfolding decodeAudioData_def Let_def
    using inner by (simp add: createBuffer_def upt_rec [of 0 1])
qed

lemma sample_at_append:
  "2 * i + 2 \<le> length data \<Longrightarrow> sample_at (data @ extra) i = sample_at data i"
  by (simp add: sample_at_def nth_append)

lemma decode_ignores_trailing_byte:
  "even (length data) \<Longrightarrow> decodeAudioData (data @ [x]) rate 1 = decodeAudioData data rate 1"
proof (cases "2 \<le> length data")
  case True
  assume e: "even (length data)"
  then have l: "length (data @ [x]) div 2 = length data div 2" by auto
  have "map (\<lambda>i. real_of_int (sample_at (data @ [x]) i) / 32768) [0..<length data div 2]
      = map (\<lambda>i. real_of_int (sample_at data i) / 32768) [0..<length data div 2]"
    by (rule map_cong) (auto simp: sample_at_append)
  moreover from True have "2 \<le> length (data @ [x])" by simp
  ultimately show ?thesis
    using True by (simp only: decodeAudioData_mono l)
next
  case False
  assume e: "even (length data)"
  with False have "length data = 0" by presburger
  then have "length data < 2" and "length (data @ [x]) < 2" by simp_all
  then show ?thesis by (simp only: decodeAudioData_short)
qed










lemma round_trip_example:
  "decodeAudioData [0x34, 0x12, 0xFE, 0xFF] 24000 1 =
     Inr \<lparr>sampleRate = 24000, bufferLength = 2, channelData = [[4660 / 32768, - 2 / 32768]]\<rparr> \<and>
   uint8_view (float32ToInt16 [4660 / 32768, - 2 / 32768]) = [0x33, 0x12, 0xFE, 0xFF]"
  by (simp add: decodeAudioData_def createBuffer_def getInt16_def word_cat_eq upt_rec [of 0 1]
      upt_rec [of 0 2] upt_rec [of 1 2] float32ToInt16_def to_int16_def uint8_view_def)



text \<open>
  Claim C7, as the decoder has it. \<open>decodeAudioData\<close> has no check of the byte length and
  raises no format error. With one channel it fails only for data without a complete
  sample (fewer than 2 bytes), for which the audio context allocates no buffer. For
  data of 2 bytes or more, of odd or even length, every read is in range and the buffer
  holds the \<open>length div 2\<close> samples that fit; an odd trailing byte is ignored, the result
  being that of the data without it.
\<close>

theorem C7_decode_floors_frame_count:
  "decodeAudioData data rate 1 =
     (if length data < 2 then Inl NotSupportedError
      else Inr \<lparr>sampleRate = rate, bufferLength = length data div 2,
                channelData =
                  [map (\<lambda>i. real_of_int (sample_at data i) / 32768) [0..<length data div 2]]\<rparr>) \<and>
   (even (length data) \<longrightarrow> decodeAudioData (data @ [x]) rate 1 = decodeAudioData data rate 1)"
proof (intro conjI impI)
  show "decodeAudioData data rate 1 =
     (if length data < 2 then Inl NotSupportedError
      else Inr \<lparr>sampleRate = rate, bufferLength = length data div 2,
                channelData =
                  [map (\<lambda>i. real_of_int (sample_at data i) / 32768) [0..<length data div 2]]\<rparr>)"
  proof (cases "length data < 2")
    case True
    then show ?thesis by (simp only: decodeAudioData_short if_True)
  next
    case False
    then have "2 \<le> length data" by simp
    with False show ?thesis by (simp only: decodeAudioData_mono if_False)
  qed
next
  assume "even (length data)"
  then show "decodeAudioData (data @ [x]) rate 1 = decodeAudioData data rate 1"
    by (rule decode_ignores_trailing_byte)
qed

text \<open>
  Two bytes and the same two bytes followed by a third decode alike, to the one sample
  4660; a single byte is refused.
\<close>

theorem C7_decode_floors_frame_count_witness:
  "even (length [0x34, 0x12 :: byte]) \<and>
   decodeAudioData [0x34, 0x12, 0x56] 24000 1 = decodeAudioData [0x34, 0x12] 24000 1 \<and>
   decodeAudioData [0x34, 0x12] 24000 1 =
     Inr \<lparr>sampleRate = 24000, bufferLength = 1, channelData = [[4660 / 32768]]\<rparr> \<and>
   decodeAudioData [0x34] 24000 1 = Inl NotSupportedError"
proof -
  have e: "even (length [0x34, 0x12 :: byte])" by simp
  note t = C7_decode_floors_frame_count [of "[0x34, 0x12]" 24000 "0x56"]
  from t e have 1: "decodeAudioData [0x34, 0x12, 0x56] 24000 1 = decodeAudioData [0x34, 0x12] 24000 1"
    by simp
  from t have 2: "decodeAudioData [0x34, 0x12] 24000 1 =
     Inr \<lparr>sampleRate = 24000, bufferLength = 1, channelData = [[4660 / 32768]]\<rparr>"
    by (simp add: sample_at_def word_cat_eq upt_rec [of 0 1])
  from C7_decode_floors_frame_count [of "[0x34]" 24000 0]
  have 3: "decodeAudioData [0x34] 24000 1 = Inl NotSupportedError" by simp
  from e 1 2 3 show ?thesis by blast
qed

text \<open>Three bytes decode to one sample; the third byte is dropped and nothing fails.\<close>

theorem C7_odd_length_counterexample:
  "odd (length [0x34, 0x12, 0x56 :: byte]) \<and>
   decodeAudioData [0x34, 0x12, 0x56] 24000 1 =
     Inr \<lparr>sampleRate = 24000, bufferLength = 1, channelData = [[4660 / 32768]]\<rparr>"
  by (simp add: decodeAudioData_def createBuffer_def getInt16_def word_cat_eq upt_rec [of 0 1])

section \<open>Properties of the playback scheduling\<close>

lemma on_audio_delta_short: "length b < 2 \<Longrightarrow> on_audio_delta c b st = st"
  by (simp only: on_audio_delta_def decodeAudioData_short sum.case)

lemma on_audio_delta_eq:
  "2 \<le> length b \<Longrightarrow>
   on_audio_delta c b st =
     st\<lparr>nextStartTime := max (nextStartTime st) c + frame_duration b,
        sources := insert (created st) (sources st),
        isAiSpeaking := True,
        started := started st @ [(created st, max (nextStartTime st) c)],
        created := Suc (created st)\<rparr>"
  unfolding on_audio_delta_def
  by (simp only: decodeAudioData_mono sum.case)
     (simp add: Let_def duration_def frame_duration_def max_def)

lemma on_audio_delta_cases:
  "on_audio_delta c b st =
     (if length b < 2 then st
      else st\<lparr>nextStartTime := max (nextStartTime st) c + frame_duration b,
              sources := insert (created st) (sources st),
              isAiSpeaking := True,
              started := started st @ [(created st, max (nextStartTime st) c)],
              created := Suc (created st)\<rparr>)"
proof (cases "length b < 2")
  case True
  then show ?thesis by (simp only: on_audio_delta_short if_True)
next
  case False
  then have "2 \<le> length b" by simp
  with False show ?thesis by (simp only: on_audio_delta_eq if_False)
qed

lemma enqueue_all_playable: "enqueue_all fs st = enqueue_all (playable fs) st"
  by (induction fs st rule: enqueue_all.induct)
     (simp_all add: playable_def on_audio_delta_short)

lemma playable_idem: "playable (playable fs) = playable fs"
  by (simp add: playable_def)

lemma playable_Cons_self:
  assumes "playable ((c, b) # rest) = (c, b) # rest"
  shows "2 \<le> length b" and "playable rest = rest"
proof -
  show ge: "2 \<le> length b"
  proof (rule ccontr)
    assume "\<not> 2 \<le> length b"
    with assms have "filter (\<lambda>f. 2 \<le> length (snd f)) rest = (c, b) # rest"
      by (simp add: playable_def)
    then have "length (filter (\<lambda>f. 2 \<le> length (snd f)) rest) = Suc (length rest)"
      by simp
    moreover have "length (filter (\<lambda>f. 2 \<le> length (snd f)) rest) \<le> length rest"
      by (rule length_filter_le)
    ultimately show False by linarith
  qed
  with assms show "playable rest = rest" by (simp add: playable_def)
qed

lemma started_enqueue_all:
  "playable fs = fs \<Longrightarrow>
   map snd (started (enqueue_all fs st)) = map snd (started st) @ actual_starts (nextStartTime st) fs"
proof (induction fs st rule: enqueue_all.induct)
  case (1 st)
  show ?case by simp
next
  case (2 c b rest st)
  from "2.prems" have ge: "2 \<le> length b" and r: "playable rest = rest"
    by (rule playable_Cons_self)+
  from "2.IH" [OF r] show ?case by (simp add: on_audio_delta_eq [OF ge])
qed

lemma actual_starts_no_underrun:
  "playable fs = fs \<Longrightarrow> no_underrun fs st \<Longrightarrow>
   actual_starts (nextStartTime st) fs =
     starts_from (nextStartTime st) (map (\<lambda>f. frame_duration (snd f)) fs)"
proof (induction fs st rule: no_underrun.induct)
  case (1 st)
  show ?case by simp
next
  case (2 c b rest st)
  from "2.prems"(1) have ge: "2 \<le> length b" and p: "playable rest = rest"
    by (rule playable_Cons_self)+
  from "2.prems"(2) have c: "c \<le> nextStartTime st"
    and r: "no_underrun rest (on_audio_delta c b st)"
    by simp_all
  from c have m: "max (nextStartTime st) c = nextStartTime st" by simp
  have n: "nextStartTime (on_audio_delta c b st) = nextStartTime st + frame_duration b"
    by (simp add: on_audio_delta_eq [OF ge] m)
  from "2.IH" [OF p r] show ?case by (simp add: m n)
qed

lemma starts_from_sums:
  "starts_from t ds = map (\<lambda>i. t + sum_list (take i ds)) [0..<length ds]"
proof (induction ds arbitrary: t)
  case Nil
  show ?case by simp
next
  case (Cons d ds)
  have "[0..<length (d # ds)] = 0 # map Suc [0..<length ds]"
    by (simp add: upt_conv_Cons map_Suc_upt del: upt_Suc)
  then show ?case by (simp add: Cons.IH comp_def add.assoc)
qed

lemma actual_starts_no_overlap:
  "Suc i < length fs \<Longrightarrow>
   actual_starts nst fs ! i + frame_duration (snd (fs ! i)) \<le> actual_starts nst fs ! Suc i"
proof (induction nst fs arbitrary: i rule: actual_starts.induct)
  case (1 nst)
  then show ?case by simp
next
  case (2 nst c b rest)
  show ?case
  proof (cases i)
    case 0
    with "2.prems" obtain c' b' rest' where "rest = (c', b') # rest'"
      by (cases rest) auto
    with 0 show ?thesis by simp
  next
    case (Suc j)
    with "2.prems" have "Suc j < length rest" by simp
    from "2.IH" [OF this] Suc show ?thesis by simp
  qed
qed

text \<open>
  Claim C2, as the handler schedules. A frame with at least one complete sample is
  enqueued: it starts at \<open>t = max nextStartTime currentTime\<close> and moves \<open>nextStartTime\<close> to
  \<open>t\<close> plus the duration of its buffer; a payload without a complete sample is not
  enqueued and changes nothing, so a run of frames is the run of those that decode. If
  none of these after the first arrives later than the end of the audio scheduled
  before it (the output clock has not passed \<open>nextStartTime\<close>), then the \<open>i\<close>-th buffer
  starts at the first buffer's start plus the durations of the buffers before it: no gap
  and no overlap. Without that condition there may be a gap, but never an overlap: a
  buffer starts no earlier than the end of the one before it.
\<close>

theorem C2_gapless_without_underrun:
  "(playable fs = (c0, b0) # rest \<and> no_underrun rest (on_audio_delta c0 b0 st) \<longrightarrow>
      scheduled_starts (enqueue_all fs st) =
        scheduled_starts st @
          map (\<lambda>i. max (nextStartTime st) c0
                    + sum_list (take i (map (\<lambda>f. frame_duration (snd f)) ((c0, b0) # rest))))
              [0..<length ((c0, b0) # rest)]) \<and>
   (let st' = on_audio_delta c b st; t = max (nextStartTime st) c in
      if length b < 2 then st' = st
      else scheduled_starts st' = scheduled_starts st @ [t] \<and>
           nextStartTime st' = t + frame_duration b) \<and>
   enqueue_all fs st = enqueue_all (playable fs) st \<and>
   (\<forall>i. Suc i < length (playable fs) \<longrightarrow>
      (let new = drop (length (started st)) (scheduled_starts (enqueue_all fs st)) in
         new ! i + frame_duration (snd (playable fs ! i)) \<le> new ! Suc i))"
proof (intro conjI impI allI)
  assume a: "playable fs = (c0, b0) # rest \<and> no_underrun rest (on_audio_delta c0 b0 st)"
  then have pf: "playable fs = (c0, b0) # rest"
    and r: "no_underrun rest (on_audio_delta c0 b0 st)"
    by simp_all
  from pf have "playable ((c0, b0) # rest) = (c0, b0) # rest"
    using playable_idem [of fs] by simp
  then have ge: "2 \<le> length b0" and pr: "playable rest = rest"
    by (rule playable_Cons_self)+
  define t0 where "t0 = max (nextStartTime st) c0"
  define st1 where "st1 = on_audio_delta c0 b0 st"
  have n1: "nextStartTime st1 = t0 + frame_duration b0"
    and s1: "map snd (started st1) = map snd (started st) @ [t0]"
    by (simp_all add: st1_def on_audio_delta_eq [OF ge] t0_def)
  have "map snd (started (enqueue_all rest st1)) =
        map snd (started st1) @
          starts_from (nextStartTime st1) (map (\<lambda>f. frame_duration (snd f)) rest)"
    using r pr by (simp add: started_enqueue_all actual_starts_no_underrun st1_def)
  then have "map snd (started (enqueue_all ((c0, b0) # rest) st)) =
        map snd (started st) @
          starts_from t0 (map (\<lambda>f. frame_duration (snd f)) ((c0, b0) # rest))"
    by (simp add: st1_def [symmetric] s1 n1)
  moreover have "enqueue_all fs st = enqueue_all ((c0, b0) # rest) st"
    using enqueue_all_playable [of fs st] pf by simp
  ultimately show "scheduled_starts (enqueue_all fs st) =
        scheduled_starts st @
          map (\<lambda>i. max (nextStartTime st) c0
                    + sum_list (take i (map (\<lambda>f. frame_duration (snd f)) ((c0, b0) # rest))))
              [0..<length ((c0, b0) # rest)]"
    unfolding scheduled_starts_def t0_def [symmetric]
    by (simp only: starts_from_sums length_map)
next
  show "let st' = on_audio_delta c b st; t = max (nextStartTime st) c in
      if length b < 2 then st' = st
      else scheduled_starts st' = scheduled_starts st @ [t] \<and>
           nextStartTime st' = t + frame_duration b"
    by (simp add: Let_def scheduled_starts_def on_audio_delta_cases)
next
  show "enqueue_all fs st = enqueue_all (playable fs) st"
    by (rule enqueue_all_playable)
next
  fix i assume "Suc i < length (playable fs)"
  moreover have "map snd (started (enqueue_all (playable fs) st)) =
      map snd (started st) @ actual_starts (nextStartTime st) (playable fs)"
    by (rule started_enqueue_all) (rule playable_idem)
  ultimately show "let new = drop (length (started st)) (scheduled_starts (enqueue_all fs st)) in
         new ! i + frame_duration (snd (playable fs ! i)) \<le> new ! Suc i"
    by (simp add: Let_def scheduled_starts_def enqueue_all_playable [of fs st]
        actual_starts_no_overlap)
qed

text \<open>
  Three frames of 4096 samples, arriving at 0, 0.1 and 0.2 s of the output clock,
  start at 0, 4096/24000 and 8192/24000 s. Two frames of one sample, the second arriving
  after a second, do not overlap.
\<close>

theorem C2_gapless_without_underrun_witness:
  "playable [(0, replicate 8192 0), (0.1, replicate 8192 0), (0.2, replicate 8192 0)]
     = (0, replicate 8192 0) # [(0.1, replicate 8192 0), (0.2, replicate 8192 0)] \<and>
   no_underrun [(0.1, replicate 8192 0), (0.2, replicate 8192 0)]
     (on_audio_delta 0 (replicate 8192 0) initial_playback) \<and>
   scheduled_starts
     (enqueue_all [(0, replicate 8192 0), (0.1, replicate 8192 0), (0.2, replicate 8192 0)]
        initial_playback) = [0, 4096 / 24000, 8192 / 24000] \<and>
   Suc 0 < length (playable [(0 :: real, [0, 0 :: byte]), (1, [0, 0])]) \<and>
   scheduled_starts (enqueue_all [(0, [0, 0]), (1, [0, 0])] initial_playback) ! 0
     + frame_duration [0, 0]
     \<le> scheduled_starts (enqueue_all [(0, [0, 0]), (1, [0, 0])] initial_playback) ! Suc 0"
proof -
  have p: "playable [(0, replicate 8192 0), (0.1, replicate 8192 0), (0.2, replicate 8192 0)]
     = (0, replicate 8192 0) # [(0.1, replicate 8192 0), (0.2, replicate 8192 0)]"
    by (simp add: playable_def)
  have h: "no_underrun [(0.1, replicate 8192 0), (0.2, replicate 8192 0)]
     (on_audio_delta 0 (replicate 8192 0) initial_playback)"
    by (simp add: on_audio_delta_cases initial_playback_def frame_duration_def)
  note g = C2_gapless_without_underrun [where
      fs = "[(0, replicate 8192 0), (0.1, replicate 8192 0), (0.2, replicate 8192 0)]"
      and c0 = 0 and ?b0.0 = "replicate 8192 0"
      and rest = "[(0.1, replicate 8192 0), (0.2, replicate 8192 0)]"
      and st = initial_playback, THEN conjunct1, rule_format, OF conjI, OF p h]
  from g have s: "scheduled_starts
     (enqueue_all [(0, replicate 8192 0), (0.1, replicate 8192 0), (0.2, replicate 8192 0)]
        initial_playback) = [0, 4096 / 24000, 8192 / 24000]"
    by (simp add: scheduled_starts_def initial_playback_def frame_duration_def
        upt_rec [of 0] upt_rec [of 1] upt_rec [of 2] upt_rec [of 3])
  have l: "Suc 0 < length (playable [(0 :: real, [0, 0 :: byte]), (1, [0, 0])])"
    by (simp add: playable_def)
  note n = C2_gapless_without_underrun [where st = initial_playback
      and fs = "[(0, [0, 0]), (1, [0, 0])]",
      THEN conjunct2, THEN conjunct2, THEN conjunct2, rule_format, OF l]
  from n have o: "scheduled_starts (enqueue_all [(0, [0, 0]), (1, [0, 0])] initial_playback) ! 0
     + frame_duration [0, 0]
     \<le> scheduled_starts (enqueue_all [(0, [0, 0]), (1, [0, 0])] initial_playback) ! Suc 0"
    by (simp add: Let_def initial_playback_def playable_def)
  from p h s l o show ?thesis by blast
qed

text \<open>
  A second frame that arrives a second after the first, which lasts 1/24000 s, starts
  at 1 s and not at 1/24000 s.
\<close>

theorem C2_late_frame_counterexample:
  "scheduled_starts (enqueue_all [(0, [0, 0]), (1, [0, 0])] initial_playback) = [0, 1] \<and>
   frame_duration [0, 0] = 1 / 24000"
  by (simp add: scheduled_starts_def on_audio_delta_cases initial_playback_def frame_duration_def)

text \<open>
  Claim C3. After the barge-in handler has run, from any state of the playback refs, the
  set of active sources is empty, the speaking flag is false, \<open>nextStartTime\<close> is 0 and the
  cooldown timestamp is 0 (cleared). Running the handler again changes nothing, and a
  state whose set was already empty is treated like any other.
\<close>

theorem C3_barge_in_clears:
  "(let st' = on_speech_started st in
      sources st' = {} \<and> \<not> isAiSpeaking st' \<and> nextStartTime st' = 0 \<and>
      lastAiSpeechEndTime st' = 0 \<and> on_speech_started st' = st') \<and>
   on_speech_started (st\<lparr>sources := {}\<rparr>) = on_speech_started st"
  by (simp add: on_speech_started_def Let_def)

lemma playback_inv_step: "playback_inv st \<Longrightarrow> playback_inv (playback_step st e)"
proof (cases e)
  case (AudioDelta c b)
  assume "playback_inv st"
  then show ?thesis unfolding AudioDelta
    by (auto simp: playback_inv_def on_audio_delta_cases less_Suc_eq)
next
  case (Ended src)
  assume "playback_inv st"
  then show ?thesis unfolding Ended
    by (auto simp: playback_inv_def on_ended_def Let_def)
next
  case (Timeout now)
  assume "playback_inv st"
  then show ?thesis unfolding Timeout
    by (auto simp: playback_inv_def on_timeout_def)
next
  case SpeechStarted
  assume "playback_inv st"
  then show ?thesis unfolding SpeechStarted
    by (auto simp: playback_inv_def on_speech_started_def)
qed

lemma playback_inv_run: "playback_inv st \<Longrightarrow> playback_inv (playback_run st events)"
  unfolding playback_run_def
  by (induction events arbitrary: st) (simp_all add: playback_inv_step)

lemma playback_inv_initial: "playback_inv initial_playback"
  by (simp add: playback_inv_def initial_playback_def)

lemma created_step: "created st \<le> created (playback_step st e)"
  by (cases e)
     (simp_all add: on_audio_delta_cases on_ended_def on_timeout_def on_speech_started_def Let_def)

lemma not_readded_step:
  "src < created st \<Longrightarrow> src \<notin> sources st \<Longrightarrow> src \<notin> sources (playback_step st e)"
  by (cases e)
     (auto simp: on_audio_delta_cases on_ended_def on_timeout_def on_speech_started_def Let_def)

lemma not_readded_run:
  "src < created st \<Longrightarrow> src \<notin> sources st \<Longrightarrow> src \<notin> sources (playback_run st events)"
  unfolding playback_run_def
proof (induction events arbitrary: st)
  case Nil
  then show ?case by simp
next
  case (Cons e es)
  have "src < created (playback_step st e)"
    using Cons.prems(1) created_step [of st e] by simp
  moreover have "src \<notin> sources (playback_step st e)"
    using Cons.prems by (rule not_readded_step)
  ultimately show ?case using Cons.IH by simp
qed

text \<open>
  Claim C9, as the handlers keep the flag. What each event does to the playback refs,
  in any state \<open>s\<close>:
  \<^item> a frame that decodes is enqueued: its new node joins the set, the nodes already there
    stay, and the flag is set; a payload without a complete sample changes nothing;
  \<^item> an ended event removes its node from the set and no other, and leaves the flag as
    it is; if the set is empty after it, one more timeout is armed;
  \<^item> a pending timeout, when it fires, clears the flag, records the time and leaves the
    set alone;
  \<^item> a barge-in empties the set and clears the flag.
  Hence, in every state reached from the initial one by such events: if the set is
  empty while the flag is still set, the timeout that will clear the flag is pending
  (the flag is cleared after the set has become empty, not with it). The node created
  next is not yet in the set, and a node that has been created and is outside the set
  never enters it again.
\<close>

theorem C9_speaking_flag_and_sources:
  "playback_step s (AudioDelta c b) =
     (if length b < 2 then s
      else s\<lparr>nextStartTime := max (nextStartTime s) c + frame_duration b,
             sources := insert (created s) (sources s),
             isAiSpeaking := True,
             started := started s @ [(created s, max (nextStartTime s) c)],
             created := Suc (created s)\<rparr>) \<and>
   playback_step s (Ended src) =
     s\<lparr>sources := sources s - {src},
       timers := (if sources s - {src} = {} then Suc (timers s) else timers s)\<rparr> \<and>
   playback_step s (Timeout now) =
     (if timers s = 0 then s
      else s\<lparr>isAiSpeaking := False, lastAiSpeechEndTime := now, timers := timers s - 1\<rparr>) \<and>
   playback_step s SpeechStarted =
     s\<lparr>sources := {}, isAiSpeaking := False, nextStartTime := 0, lastAiSpeechEndTime := 0\<rparr> \<and>
   (let st = playback_run initial_playback events in
      (sources st = {} \<and> isAiSpeaking st \<longrightarrow> 0 < timers st) \<and>
      (2 \<le> length b \<longrightarrow>
         isAiSpeaking (playback_step st (AudioDelta c b)) \<and>
         sources (playback_step st (AudioDelta c b)) \<noteq> {}) \<and>
      (\<not> isAiSpeaking (playback_step st SpeechStarted) \<and>
       sources (playback_step st SpeechStarted) = {}) \<and>
      src \<notin> sources (playback_step st (Ended src)) \<and>
      created st \<notin> sources st \<and>
      (src < created st \<and> src \<notin> sources st \<longrightarrow> src \<notin> sources (playback_run st later)))"
proof -
  define st where "st = playback_run initial_playback events"
  have inv: "playback_inv st"
    unfolding st_def by (intro playback_inv_run playback_inv_initial)
  have a: "playback_step s (AudioDelta c b) =
     (if length b < 2 then s
      else s\<lparr>nextStartTime := max (nextStartTime s) c + frame_duration b,
             sources := insert (created s) (sources s),
             isAiSpeaking := True,
             started := started s @ [(created s, max (nextStartTime s) c)],
             created := Suc (created s)\<rparr>)"
    by (simp only: playback_step.simps on_audio_delta_cases)
  have e: "playback_step s (Ended src) =
     s\<lparr>sources := sources s - {src},
       timers := (if sources s - {src} = {} then Suc (timers s) else timers s)\<rparr>"
    by (simp add: on_ended_def Let_def)
  have t: "playback_step s (Timeout now) =
     (if timers s = 0 then s
      else s\<lparr>isAiSpeaking := False, lastAiSpeechEndTime := now, timers := timers s - 1\<rparr>)"
    by (simp add: on_timeout_def)
  have b: "playback_step s SpeechStarted =
     s\<lparr>sources := {}, isAiSpeaking := False, nextStartTime := 0, lastAiSpeechEndTime := 0\<rparr>"
    by (simp add: on_speech_started_def)
  have 1: "sources st = {} \<and> isAiSpeaking st \<longrightarrow> 0 < timers st"
    using inv by (simp add: playback_inv_def)
  have 2: "2 \<le> length b \<longrightarrow>
         isAiSpeaking (playback_step st (AudioDelta c b)) \<and>
         sources (playback_step st (AudioDelta c b)) \<noteq> {}"
    by (simp add: on_audio_delta_cases)
  have 3: "\<not> isAiSpeaking (playback_step st SpeechStarted) \<and>
       sources (playback_step st SpeechStarted) = {}"
    by (simp add: on_speech_started_def)
  have 4: "src \<notin> sources (playback_step st (Ended src))"
    by (simp add: on_ended_def Let_def)
  have 5: "created st \<notin> sources st"
    using inv by (auto simp: playback_inv_def)
  have 6: "src < created st \<and> src \<notin> sources st \<longrightarrow> src \<notin> sources (playback_run st later)"
    by (auto dest: not_readded_run)
  show ?thesis
    unfolding Let_def st_def [symmetric] using a e t b 1 2 3 4 5 6 by blast
qed

text \<open>
  One frame enqueued and ended: the set is empty, the flag still set and the timeout
  pending; the timeout then clears the flag; a second frame does not bring the first
  node back.
\<close>

theorem C9_speaking_flag_and_sources_witness:
  "sources (playback_run initial_playback [AudioDelta 0 [0, 0], Ended 0]) = {} \<and>
   isAiSpeaking (playback_run initial_playback [AudioDelta 0 [0, 0], Ended 0]) \<and>
   0 < timers (playback_run initial_playback [AudioDelta 0 [0, 0], Ended 0]) \<and>
   0 < created (playback_run initial_playback [AudioDelta 0 [0, 0], Ended 0]) \<and>
   0 \<notin> sources (playback_run (playback_run initial_playback [AudioDelta 0 [0, 0], Ended 0])
                   [AudioDelta 1 [0, 0]]) \<and>
   2 \<le> length [0, 0 :: byte] \<and>
   isAiSpeaking
     (playback_step (playback_run initial_playback [AudioDelta 0 [0, 0], Ended 0])
        (AudioDelta 1 [0, 0])) \<and>
   \<not> isAiSpeaking
     (playback_step (playback_run initial_playback [AudioDelta 0 [0, 0], Ended 0]) (Timeout 7))"
proof -
  define st where "st = playback_run initial_playback [AudioDelta 0 [0, 0], Ended 0]"
  have e: "sources st = {} \<and> isAiSpeaking st"
    and c: "0 < created st \<and> 0 \<notin> sources st"
    by (simp_all add: st_def playback_run_def on_audio_delta_cases on_ended_def
        initial_playback_def Let_def)
  have l: "2 \<le> length [0, 0 :: byte]" by simp
  note t = C9_speaking_flag_and_sources [where events = "[AudioDelta 0 [0, 0], Ended 0]"
      and c = 1 and b = "[0, 0]" and src = 0 and later = "[AudioDelta 1 [0, 0]]"
      and s = st and now = 7, unfolded Let_def, folded st_def]
  from t e have p: "0 < timers st" by blast
  from t c have r: "0 \<notin> sources (playback_run st [AudioDelta 1 [0, 0]])" by blast
  from t l have a: "isAiSpeaking (playback_step st (AudioDelta 1 [0, 0]))" by blast
  from t have "playback_step st (Timeout 7) =
     (if timers st = 0 then st
      else st\<lparr>isAiSpeaking := False, lastAiSpeechEndTime := 7, timers := timers st - 1\<rparr>)"
    by blast
  with p have f: "\<not> isAiSpeaking (playback_step st (Timeout 7))" by simp
  from e p c r l a f show ?thesis unfolding st_def by blast
qed

text \<open>
  After the only source has ended the set is empty and the flag is still set.
\<close>

theorem C9_flag_outlives_sources_counterexample:
  "sources (playback_run initial_playback [AudioDelta 0 [0, 0], Ended 0]) = {} \<and>
   isAiSpeaking (playback_run initial_playback [AudioDelta 0 [0, 0], Ended 0])"
  by (simp add: playback_run_def on_audio_delta_cases on_ended_def initial_playback_def Let_def)

section \<open>Properties of the session monitor\<close>

lemma confidence_patch_result:
  "dimensions (updateAssessmentState now start (confidence_patch v) INITIAL_SESSION_STATE) =
     map (\<lambda>key. (key, initial_dimension\<lparr>confidence := Some v\<rparr>)) DIMENSION_CODES"
  by (simp add: updateAssessmentState_def confidence_patch_def INITIAL_SESSION_STATE_def Let_def
      DIMENSION_CODES_def spread_def spread_undefined_def no_properties_def initial_dimension_def
      or_else_def)

text \<open>The flag is a latch: no tick clears it.\<close>

lemma early_exit_latch:
  "showEarlyExitButton c \<Longrightarrow> showEarlyExitButton (monitor_tick now start c)"
  by (simp add: monitor_tick_def handleDisconnectBtn_def Let_def)

text \<open>The tick raises the flag only if every dimension's confidence is the string \<open>high\<close>.\<close>

lemma monitor_tick_needs_lower_case:
  "\<not> showEarlyExitButton c \<Longrightarrow> (key, d) \<in> set (dimensions (sessionState c)) \<Longrightarrow>
   confidence d \<noteq> Some ''high'' \<Longrightarrow> \<not> showEarlyExitButton (monitor_tick now start c)"
  by (auto simp: monitor_tick_def handleDisconnectBtn_def Let_def list_all_iff)

lemma lower_case_high_raises:
  "showEarlyExitButton
       (monitor_tick 300000 0
          (connected_coach
             (updateAssessmentState 300000 0 (confidence_patch ''high'') INITIAL_SESSION_STATE)))"
  by (simp add: confidence_patch_result monitor_tick_def connected_coach_def DIMENSION_CODES_def
      Let_def)

text \<open>
  Claim C8, evaluated on the code. A patch sets the confidence of all five dimensions to
  \<^verbatim>\<open>HIGH\<close>, the value that \<^verbatim>\<open>types.ts\<close> declares; the monitor then ticks at the 5-minute mark
  of a connected, unpaused session. The five dimensions are there, each with confidence
  \<^verbatim>\<open>HIGH\<close>, and the tick leaves the early-exit flag down, because it compares the
  confidence with \<^verbatim>\<open>high\<close>.
\<close>

theorem C8_all_HIGH_does_not_raise:
  "list_all (\<lambda>(key, d). confidence d = Some ''HIGH'')
     (dimensions (updateAssessmentState 300000 0 (confidence_patch ''HIGH'') INITIAL_SESSION_STATE)) \<and>
   map fst (dimensions (updateAssessmentState 300000 0 (confidence_patch ''HIGH'') INITIAL_SESSION_STATE))
     = DIMENSION_CODES \<and>
   \<not> showEarlyExitButton
       (monitor_tick 300000 0
          (connected_coach
             (updateAssessmentState 300000 0 (confidence_patch ''HIGH'') INITIAL_SESSION_STATE)))"
  by (simp add: confidence_patch_result monitor_tick_def connected_coach_def DIMENSION_CODES_def
      Let_def)

end
